theory Spec2Isabelle
  imports Main "HOL-Library.AList"
begin

section \<open>Strings\<close>

text \<open>
  A Python \<open>str\<close> is modelled as a \<open>string\<close> whose characters are ASCII code points.
  On ASCII the regular expression class \<open>\w\<close> is \<open>[A-Za-z0-9_]\<close> and \<open>str.lower\<close>
  maps \<open>A-Z\<close> to \<open>a-z\<close> and nothing else; text beyond ASCII is outside the model.
\<close>

definition is_word :: "char \<Rightarrow> bool" where
  "is_word c =
     (let n = (of_char c :: nat)
      in (48 \<le> n \<and> n \<le> 57) \<or> (65 \<le> n \<and> n \<le> 90) \<or> (97 \<le> n \<and> n \<le> 122) \<or> n = 95)"

definition lower_char :: "char \<Rightarrow> char" where
  "lower_char c =
     (let n = (of_char c :: nat)
      in if 65 \<le> n \<and> n \<le> 90 then char_of (n + 32) else c)"

definition lower :: "string \<Rightarrow> string" where
  "lower s = map lower_char s"

text \<open>\<open>str.isspace\<close> on ASCII: tab to carriage return, the four separators, the space.\<close>

definition is_space :: "char \<Rightarrow> bool" where
  "is_space c =
     (let n = (of_char c :: nat)
      in (9 \<le> n \<and> n \<le> 13) \<or> (28 \<le> n \<and> n \<le> 32))"

text \<open>\<open>s.strip(chars)\<close>, with the set of stripped characters as a predicate.\<close>

definition strip_with :: "(char \<Rightarrow> bool) \<Rightarrow> string \<Rightarrow> string" where
  "strip_with p s = rev (dropWhile p (rev (dropWhile p s)))"

definition strip :: "string \<Rightarrow> string" where
  "strip s = strip_with is_space s"

definition startswith :: "string \<Rightarrow> string \<Rightarrow> bool" where
  "startswith s pre = (take (length pre) s = pre)"

definition endswith :: "string \<Rightarrow> string \<Rightarrow> bool" where
  "endswith s suf = (length suf \<le> length s \<and> drop (length s - length suf) s = suf)"

text \<open>\<open>s.replace(' ', '-')\<close> and \<open>s.replace('"', '\\"')\<close>: one character replaced by a string.\<close>

definition replace_char :: "char \<Rightarrow> string \<Rightarrow> string \<Rightarrow> string" where
  "replace_char c r s = concat (map (\<lambda>x. if x = c then r else [x]) s)"

text \<open>\<open>re.sub(r'-+', '-', s)\<close>: every maximal run of hyphens becomes one hyphen.\<close>

fun collapse_hyphens :: "string \<Rightarrow> string" where
  "collapse_hyphens [] = []"
| "collapse_hyphens [x] = [x]"
| "collapse_hyphens (x # y # s) =
     (if x = CHR ''-'' \<and> y = CHR ''-'' then collapse_hyphens (y # s)
      else x # collapse_hyphens (y # s))"

section \<open>The slug: \<open>sanitize_filename\<close>\<close>

text \<open>
  \<^verbatim>\<open>
  sanitized = name.replace(' ', '-')
  sanitized = re.sub(r'[^\w\-]', '', sanitized)
  sanitized = re.sub(r'-+', '-', sanitized)
  return sanitized.lower().strip('-')[:100]
  \<close>
  The slice is taken after the hyphens are stripped.
\<close>

definition sanitize_filename :: "string \<Rightarrow> string" where
  "sanitize_filename name =
     (let sanitized = replace_char CHR '' '' ''-'' name;
          sanitized = filter (\<lambda>c. is_word c \<or> c = CHR ''-'') sanitized;
          sanitized = collapse_hyphens sanitized
      in take 100 (strip_with (\<lambda>c. c = CHR ''-'') (lower sanitized)))"

section \<open>Paths\<close>

text \<open>\<open>os.path.join\<close>, \<open>os.path.basename\<close> and \<open>os.path.dirname\<close> of \<open>posixpath\<close>.\<close>

definition path_join :: "string \<Rightarrow> string \<Rightarrow> string" where
  "path_join path b =
     (if startswith b ''/'' then b
      else if path = [] \<or> endswith path ''/'' then path @ b
      else path @ ''/'' @ b)"

definition basename :: "string \<Rightarrow> string" where
  "basename p = rev (takeWhile (\<lambda>c. c \<noteq> CHR ''/'') (rev p))"

definition dirname :: "string \<Rightarrow> string" where
  "dirname p =
     (let head = rev (dropWhile (\<lambda>c. c \<noteq> CHR ''/'') (rev p))
      in if head \<noteq> [] \<and> \<not> list_all (\<lambda>c. c = CHR ''/'') head
         then rev (dropWhile (\<lambda>c. c = CHR ''/'') (rev head))
         else head)"

section \<open>The environment\<close>

text \<open>
  The exceptions the code distinguishes: \<open>fetch_page_content\<close> catches
  \<open>requests.exceptions.RequestException\<close> only, every other handler catches \<open>Exception\<close>.
\<close>

datatype exn = RequestException | OSError | OtherException

record response =
  status_code :: nat
  resp_text :: string
  resp_url :: string

text \<open>
  A streamed response (\<open>stream=True\<close>): the chunks \<open>iter_content\<close> yields, and the
  exception it raises after them, if any.
\<close>

record stream_response =
  stream_status :: nat
  stream_chunks :: "string list"
  stream_error :: "exn option"

text \<open>What an XPath query returns: elements (here by their serialisation) or strings.\<close>

datatype xnode = Element string | TextNode string

text \<open>
  The outcome of \<open>with open(path, 'w') as f: f.write(data)\<close>: written, \<open>open\<close> raised,
  or the write raised and left the given text in the file.
\<close>

datatype write_result = WriteOk | OpenError | WriteError string

text \<open>
  Everything the program gets from libraries and from the outside is a field of the world:
  \<^item> \<open>requests_get url\<close>: \<open>requests.get(url, headers=..., timeout=10)\<close>; \<open>resp_url\<close> of the
    response is the address after redirects;
  \<^item> \<open>etree_xpath html xpath\<close>: \<open>etree.HTML(html).xpath(xpath)\<close>;
  \<^item> \<open>soup_get_text h\<close>, \<open>soup_str h\<close>, \<open>soup_get h a\<close>: with
    \<open>soup = BeautifulSoup(h, 'html.parser')\<close>, the values of \<open>soup.get_text(strip=True)\<close>,
    \<open>str(soup)\<close> and \<open>soup.get(a, None)\<close>;
  \<^item> \<open>img_srcs h\<close>: \<open>img.get('src')\<close> for each \<open>img\<close> of \<open>soup.find_all('img')\<close>, in order;
    \<open>soup_with_srcs h srcs\<close>: \<open>str(soup)\<close> once the \<open>src\<close> attributes are those of \<open>srcs\<close>;
  \<^item> \<open>urljoin\<close>: \<open>urllib.parse.urljoin\<close>; \<open>markdownify\<close>: \<open>md(html)\<close>;
  \<^item> \<open>today\<close> and \<open>timestamp\<close>: \<open>datetime.now()\<close> formatted \<open>%Y-%m-%d\<close> and
    \<open>%Y%m%d%H%M%S\<close> (the clock reading is fixed for a run);
  \<^item> \<open>makedirs_error d\<close>: \<open>os.makedirs(d, exist_ok=True)\<close> raises \<open>OSError\<close>;
    \<open>fs_write\<close>: the outcome of writing a file; \<open>append_error\<close>: appending to it raises.
\<close>

record world =
  requests_get :: "string \<Rightarrow> exn + response"
  requests_get_stream :: "string \<Rightarrow> exn + stream_response"
  etree_xpath :: "string \<Rightarrow> string \<Rightarrow> exn + xnode list"
  soup_get_text :: "string \<Rightarrow> string"
  soup_str :: "string \<Rightarrow> string"
  soup_get :: "string \<Rightarrow> string \<Rightarrow> string option"
  img_srcs :: "string \<Rightarrow> string option list"
  soup_with_srcs :: "string \<Rightarrow> string option list \<Rightarrow> string"
  urljoin :: "string \<Rightarrow> string \<Rightarrow> string"
  markdownify :: "string \<Rightarrow> exn + string"
  today :: string
  timestamp :: string
  makedirs_error :: "string \<Rightarrow> bool"
  fs_write :: "string \<Rightarrow> string \<Rightarrow> write_result"
  append_error :: "string \<Rightarrow> bool"

text \<open>
  The effects, in the order they happen: an HTTP request sent, a file written in full, a
  line appended to the ledger.
\<close>

datatype event = HttpGet string | FileWrite string | LedgerAppend string

text \<open>
  The state the program changes: the files it writes (documents and images, by path), the
  lines of \<open>downloaded.log\<close>, and the effects so far.
\<close>

record state =
  files :: "string \<rightharpoonup> string"
  ledger :: "string list"
  events :: "event list"

definition emit :: "event \<Rightarrow> state \<Rightarrow> state" where
  "emit e s = s\<lparr>events := events s @ [e]\<rparr>"

text \<open>\<open>response.raise_for_status()\<close> raises \<open>HTTPError\<close>, a \<open>RequestException\<close>.\<close>

definition http_error :: "nat \<Rightarrow> bool" where
  "http_error code = (400 \<le> code \<and> code < 600)"

section \<open>The ledger\<close>

definition get_downloaded_urls :: "state \<Rightarrow> string set" where
  "get_downloaded_urls s = set (filter (\<lambda>l. l \<noteq> []) (map strip (ledger s)))"

text \<open>A failed append is logged and swallowed.\<close>

definition mark_as_downloaded :: "world \<Rightarrow> string \<Rightarrow> string \<Rightarrow> state \<Rightarrow> state" where
  "mark_as_downloaded w project_root url s =
     (let downloaded_log_path = path_join project_root ''downloaded.log''
      in if append_error w downloaded_log_path then s
         else emit (LedgerAppend url) (s\<lparr>ledger := ledger s @ [url]\<rparr>))"

section \<open>The page fetcher\<close>

text \<open>
  \<^verbatim>\<open>
  response = requests.get(url, headers=headers, timeout=10)
  response.raise_for_status()
  return response.text, url
  \<close>
  and \<open>return None, url\<close> in the handler of \<open>RequestException\<close>.
\<close>

definition fetch_page_content ::
  "world \<Rightarrow> string \<Rightarrow> state \<Rightarrow> (exn + (string option \<times> string)) \<times> state" where
  "fetch_page_content w url s =
     (let s1 = emit (HttpGet url) s
      in case requests_get w url of
           Inl RequestException \<Rightarrow> (Inr (None, url), s1)
         | Inl e \<Rightarrow> (Inl e, s1)
         | Inr response \<Rightarrow>
             if http_error (status_code response) then (Inr (None, url), s1)
             else (Inr (Some (resp_text response), url), s1))"

section \<open>The field extractor\<close>

text \<open>Every exception inside \<open>extract_field\<close> is caught and gives \<open>None\<close>.\<close>

definition extract_field :: "world \<Rightarrow> string \<Rightarrow> string \<Rightarrow> string \<Rightarrow> string \<Rightarrow> string option" where
  "extract_field w html_content xpath attribute base_url =
     (case etree_xpath w html_content xpath of
        Inl e \<Rightarrow> None
      | Inr [] \<Rightarrow> None
      | Inr (TextNode t # _) \<Rightarrow> Some (strip t)
      | Inr (Element element_html # _) \<Rightarrow>
          if attribute = ''text'' then Some (soup_get_text w element_html)
          else if attribute = ''html'' then Some (soup_str w element_html)
          else (case soup_get w element_html attribute of
                  None \<Rightarrow> None
                | Some v \<Rightarrow>
                    if v \<noteq> [] \<and> attribute \<in> {''src'', ''href''}
                       \<and> (startswith v ''/'' \<or> \<not> startswith v ''http'')
                    then Some (urljoin w base_url v)
                    else Some v))"

section \<open>The image localizer\<close>

text \<open>
  The local name of an image: \<open>os.path.basename(image_url.split('?')[0])\<close>, or
  \<open>image_<timestamp>.jpg\<close> when that is empty or has no dot. The address is first joined
  to the base when it does not start with \<open>http\<close>.
\<close>

definition absolute_image_url :: "world \<Rightarrow> string \<Rightarrow> string \<Rightarrow> string" where
  "absolute_image_url w image_url base_url =
     (if \<not> startswith image_url ''http'' then urljoin w base_url image_url else image_url)"

definition image_name_of :: "world \<Rightarrow> string \<Rightarrow> string" where
  "image_name_of w image_url =
     (let image_name = basename (takeWhile (\<lambda>c. c \<noteq> CHR ''?'') image_url)
      in if image_name = [] \<or> CHR ''.'' \<notin> set image_name
         then ''image_'' @ timestamp w @ ''.jpg''
         else image_name)"

text \<open>
  \<open>download_image\<close>: the whole body after the first test is inside \<open>try\<close>, and the handler
  returns \<open>None\<close>. The file is opened (hence created) before the chunks are read, so a
  stream that breaks leaves the chunks that arrived.
\<close>

definition download_image ::
  "world \<Rightarrow> string \<Rightarrow> string \<Rightarrow> string \<Rightarrow> state \<Rightarrow> string option \<times> state" where
  "download_image w image_url save_dir base_url s =
     (if image_url = [] then (None, s)
      else if makedirs_error w save_dir then (None, s)
      else
        let image_url = absolute_image_url w image_url base_url;
            image_name = image_name_of w image_url;
            save_path = path_join save_dir image_name
        in if files s save_path \<noteq> None then (Some image_name, s)
           else
             let s1 = emit (HttpGet image_url) s
             in case requests_get_stream w image_url of
                  Inl e \<Rightarrow> (None, s1)
                | Inr response \<Rightarrow>
                    if http_error (stream_status response) then (None, s1)
                    else
                      (let data = concat (stream_chunks response)
                       in (case fs_write w save_path data of
                             OpenError \<Rightarrow> (None, s1)
                           | WriteError partial \<Rightarrow>
                               (None, s1\<lparr>files := (files s1)(save_path \<mapsto> partial)\<rparr>)
                           | WriteOk \<Rightarrow>
                               (let s2 = s1\<lparr>files := (files s1)(save_path \<mapsto> data)\<rparr>
                                in (case stream_error response of
                                      Some e \<Rightarrow> (None, s2)
                                    | None \<Rightarrow>
                                        (Some image_name, emit (FileWrite save_path) s2))))))"

text \<open>
  The loop of \<open>download_content_images\<close> over the images of the fragment: an image with a
  non-empty \<open>src\<close> is downloaded, and its \<open>src\<close> is rewritten when a name comes back.
\<close>

fun localize_srcs ::
  "world \<Rightarrow> string option list \<Rightarrow> string \<Rightarrow> string \<Rightarrow> state \<Rightarrow> string option list \<times> state" where
  "localize_srcs w [] save_dir base_url s = ([], s)"
| "localize_srcs w (img_url # images) save_dir base_url s =
     (case img_url of
        None \<Rightarrow>
          (let (rest, s') = localize_srcs w images save_dir base_url s in (None # rest, s'))
      | Some u \<Rightarrow>
          if u = [] then
            (let (rest, s') = localize_srcs w images save_dir base_url s in (Some u # rest, s'))
          else
            (case download_image w u save_dir base_url s of
               (None, s1) \<Rightarrow>
                 (let (rest, s') = localize_srcs w images save_dir base_url s1
                  in (Some u # rest, s'))
             | (Some img_name, s1) \<Rightarrow>
                 (let (rest, s') = localize_srcs w images save_dir base_url s1
                  in (Some (''/static/images/'' @ img_name) # rest, s'))))"

definition download_content_images ::
  "world \<Rightarrow> string \<Rightarrow> string \<Rightarrow> string \<Rightarrow> state \<Rightarrow> string \<times> state" where
  "download_content_images w content_html save_dir base_url s =
     (if content_html = [] then (content_html, s)
      else
        let (srcs, s') = localize_srcs w (img_srcs w content_html) save_dir base_url s
        in (soup_with_srcs w content_html srcs, s'))"

section \<open>The document renderer\<close>

text \<open>
  A Python \<open>dict\<close> from field names to values that may be \<open>None\<close> is an association list
  in insertion order; \<open>AList.update\<close> assigns as \<open>d[k] = v\<close> does (in place for a key
  already there, at the end for a new one).
\<close>

type_synonym record_fields = "(string \<times> string option) list"

text \<open>\<open>d.get(k)\<close>: \<open>None\<close> for a missing key and for a key whose value is \<open>None\<close>.\<close>

definition dict_get :: "record_fields \<Rightarrow> string \<Rightarrow> string option" where
  "dict_get d k = (case map_of d k of None \<Rightarrow> None | Some v \<Rightarrow> v)"

text \<open>Truth of an optional string: \<open>None\<close> and the empty string are false.\<close>

definition truthy :: "string option \<Rightarrow> bool" where
  "truthy v = (case v of None \<Rightarrow> False | Some x \<Rightarrow> x \<noteq> [])"

definition newline :: string where
  "newline = [CHR 0x0A]"

definition dquote :: char where
  "dquote = CHR 0x22"

definition backslash :: char where
  "backslash = CHR 0x5C"

text \<open>One line of front-matter; a field whose value is \<open>None\<close> gives none.\<close>

definition front_matter_line :: "string \<times> string option \<Rightarrow> string" where
  "front_matter_line kv =
     (case snd kv of
        None \<Rightarrow> []
      | Some v \<Rightarrow>
          (let escaped_value = replace_char dquote [backslash, dquote] v
           in fst kv @ '': '' @ [dquote] @ escaped_value @ [dquote] @ newline))"

definition md_content_of :: "record_fields \<Rightarrow> string \<Rightarrow> string" where
  "md_content_of front_matter content =
     ''---'' @ newline @ concat (map front_matter_line front_matter)
       @ ''---'' @ newline @ newline @ content"

text \<open>
  \<open>create_markdown_file\<close>: \<open>os.makedirs\<close> is called before the \<open>try\<close>, so its exception
  leaves the function; an exception of the write is caught and gives \<open>False\<close>.
\<close>

definition create_markdown_file ::
  "world \<Rightarrow> string \<Rightarrow> record_fields \<Rightarrow> string \<Rightarrow> state \<Rightarrow> (exn + bool) \<times> state" where
  "create_markdown_file w save_path front_matter content s =
     (if makedirs_error w (dirname save_path) then (Inl OSError, s)
      else
        let md_content = md_content_of front_matter content
        in case fs_write w save_path md_content of
             WriteOk \<Rightarrow>
               (Inr True, emit (FileWrite save_path) (s\<lparr>files := (files s)(save_path \<mapsto> md_content)\<rparr>))
           | OpenError \<Rightarrow> (Inr False, s)
           | WriteError partial \<Rightarrow> (Inr False, s\<lparr>files := (files s)(save_path \<mapsto> partial)\<rparr>))"

section \<open>The configuration\<close>

text \<open>
  An extraction rule is a JSON object in which the keys \<open>xpath\<close> and \<open>attribute\<close> may be
  missing. \<open>config_fields\<close> (the key \<open>fields\<close>) keeps the order of the configuration file, which is the order in which
  \<open>config['fields'].items()\<close> is traversed.
\<close>

record field_config =
  rule_xpath :: "string option"
  rule_attribute :: "string option"

record config =
  project_root :: string
  config_fields :: "(string \<times> field_config) list"

section \<open>The pipeline for one URL\<close>

text \<open>
  The loop over the configured fields: a rule without \<open>xpath\<close> or without \<open>attribute\<close>
  is skipped (\<open>continue\<close>), any other assigns \<open>extracted_fields[field_name]\<close>.
\<close>

fun extract_fields ::
  "world \<Rightarrow> string \<Rightarrow> string \<Rightarrow> (string \<times> field_config) list \<Rightarrow> record_fields \<Rightarrow> record_fields" where
  "extract_fields w html_content base_url [] extracted_fields = extracted_fields"
| "extract_fields w html_content base_url ((field_name, field_config) # rest) extracted_fields =
     (case rule_xpath field_config of
        None \<Rightarrow> extract_fields w html_content base_url rest extracted_fields
      | Some xpath \<Rightarrow>
          (case rule_attribute field_config of
             None \<Rightarrow> extract_fields w html_content base_url rest extracted_fields
           | Some attribute \<Rightarrow>
               extract_fields w html_content base_url rest
                 (AList.update field_name
                    (extract_field w html_content xpath attribute base_url) extracted_fields)))"

text \<open>
  \<^verbatim>\<open>
  if 'date' not in extracted_fields or not extracted_fields['date']:
      extracted_fields['date'] = datetime.now().strftime('%Y-%m-%d')
  \<close>
\<close>

definition with_date :: "world \<Rightarrow> record_fields \<Rightarrow> record_fields" where
  "with_date w extracted_fields =
     (if map_of extracted_fields ''date'' = None \<or> \<not> truthy (dict_get extracted_fields ''date'')
      then AList.update ''date'' (Some (today w)) extracted_fields
      else extracted_fields)"

text \<open>
  \<open>{k: v for k, v in extracted_fields.items() if k != 'content' and k != 'url'}\<close>
\<close>

definition front_matter_of :: "record_fields \<Rightarrow> record_fields" where
  "front_matter_of extracted_fields =
     filter (\<lambda>kv. fst kv \<noteq> ''content'' \<and> fst kv \<noteq> ''url'') extracted_fields"

text \<open>How an f-string prints a value that may be \<open>None\<close>.\<close>

definition format_value :: "string option \<Rightarrow> string" where
  "format_value v = (case v of None \<Rightarrow> ''None'' | Some x \<Rightarrow> x)"

text \<open>
  The record \<open>process_url\<close> holds when it builds the front-matter: the extracted fields,
  the date, the slug of the title.
\<close>

definition final_fields :: "world \<Rightarrow> record_fields \<Rightarrow> string \<Rightarrow> record_fields" where
  "final_fields w extracted_fields title =
     AList.update ''slug'' (Some (sanitize_filename title)) (with_date w extracted_fields)"

text \<open>
  The body of \<open>process_url\<close> after the page has been fetched. \<open>process_url\<close> has no
  \<open>try\<close> of its own: an exception of a callee leaves it. Reading \<open>title\<close> or \<open>content\<close>
  as \<open>None\<close> after the gate would raise; the gate excludes it.
\<close>

definition process_page ::
  "world \<Rightarrow> string \<Rightarrow> config \<Rightarrow> string \<Rightarrow> string \<Rightarrow> state \<Rightarrow> (exn + bool) \<times> state" where
  "process_page w url config html_content base_url s =
     (let extracted_fields = extract_fields w html_content base_url (config_fields config) []
      in if \<not> truthy (dict_get extracted_fields ''title'')
            \<or> \<not> truthy (dict_get extracted_fields ''content'')
         then (Inr False, s)
         else
           (case dict_get (with_date w extracted_fields) ''title'' of
              None \<Rightarrow> (Inl OtherException, s)
            | Some title \<Rightarrow>
                (let slug = sanitize_filename title;
                     extracted_fields = final_fields w extracted_fields title;
                     date_prefix = format_value (dict_get extracted_fields ''date'');
                     md_filename = date_prefix @ ''-'' @ slug @ ''.md'';
                     md_save_path =
                       path_join (path_join (path_join (project_root config) ''content'') ''blog'')
                         md_filename;
                     image_save_dir =
                       path_join (path_join (project_root config) ''static'') ''images''
                 in (case dict_get extracted_fields ''content'' of
                       None \<Rightarrow> (Inl OtherException, s)
                     | Some content_html \<Rightarrow>
                         (let (content_with_local_images, s1) =
                                download_content_images w content_html image_save_dir base_url s
                          in (case markdownify w content_with_local_images of
                                Inl e \<Rightarrow> (Inl e, s1)
                              | Inr content_md \<Rightarrow>
                                  (let front_matter = front_matter_of extracted_fields
                                   in (case create_markdown_file w md_save_path front_matter
                                               content_md s1 of
                                         (Inl e, s2) \<Rightarrow> (Inl e, s2)
                                       | (Inr success, s2) \<Rightarrow>
                                           if success
                                           then (Inr True,
                                                 mark_as_downloaded w (project_root config) url s2)
                                           else (Inr False, s2)))))))))"

text \<open>
  \<^verbatim>\<open>
  html_content, base_url = fetch_page_content(url)
  if not html_content:
      return False
  \<close>
\<close>

definition process_url ::
  "world \<Rightarrow> string \<Rightarrow> config \<Rightarrow> state \<Rightarrow> (exn + bool) \<times> state" where
  "process_url w url config s =
     (case fetch_page_content w url s of
        (Inl e, s1) \<Rightarrow> (Inl e, s1)
      | (Inr (html_content, base_url), s1) \<Rightarrow>
          (case html_content of
             None \<Rightarrow> (Inr False, s1)
           | Some html \<Rightarrow>
               if html = [] then (Inr False, s1)
               else process_page w url config html base_url s1))"

section \<open>The orchestration loop\<close>

text \<open>
  \<^verbatim>\<open>
  for url in urls:
      if url in downloaded_urls:
          continue
      process_url(url, config)
  \<close>
  The value of \<open>process_url\<close> is dropped; its exception ends the loop.
\<close>

fun main_loop ::
  "world \<Rightarrow> config \<Rightarrow> string set \<Rightarrow> string list \<Rightarrow> state \<Rightarrow> (exn + unit) \<times> state" where
  "main_loop w config downloaded_urls [] s = (Inr (), s)"
| "main_loop w config downloaded_urls (url # urls) s =
     (if url \<in> downloaded_urls then main_loop w config downloaded_urls urls s
      else (case process_url w url config s of
              (Inl e, s1) \<Rightarrow> (Inl e, s1)
            | (Inr r, s1) \<Rightarrow> main_loop w config downloaded_urls urls s1))"

text \<open>
  \<open>main\<close> once the configuration and the URL list are loaded: the three directories, the
  ledger read once, the loop. The handler of \<open>main\<close> turns any exception into
  \<open>sys.exit(1)\<close>.
\<close>

datatype exit_status = Completed | Exit1

definition main_run :: "world \<Rightarrow> config \<Rightarrow> string list \<Rightarrow> state \<Rightarrow> exit_status \<times> state" where
  "main_run w config urls s =
     (if makedirs_error w (project_root config)
         \<or> makedirs_error w (path_join (path_join (project_root config) ''content'') ''blog'')
         \<or> makedirs_error w (path_join (path_join (project_root config) ''static'') ''images'')
      then (Exit1, s)
      else if urls = [] then (Completed, s)
      else (case main_loop w config (get_downloaded_urls s) urls s of
              (Inl e, s') \<Rightarrow> (Exit1, s')
            | (Inr u, s') \<Rightarrow> (Completed, s')))"

section \<open>The URL join of the standard library\<close>

text \<open>
  \<open>urllib.parse.urljoin\<close> as the standard library computes it, for addresses without path
  parameters and without characters that \<open>urlsplit\<close> removes first. The theorems below hold
  for every \<open>urljoin\<close> of the world; the examples use this one.
\<close>

fun split_on :: "char \<Rightarrow> string \<Rightarrow> string list" where
  "split_on c [] = [[]]"
| "split_on c (x # xs) =
     (if x = c then [] # split_on c xs
      else (case split_on c xs of [] \<Rightarrow> [[x]] | h # t \<Rightarrow> (x # h) # t))"

fun join_with :: "string \<Rightarrow> string list \<Rightarrow> string" where
  "join_with sep [] = []"
| "join_with sep [x] = x"
| "join_with sep (x # y # ys) = x @ sep @ join_with sep (y # ys)"

record split_url =
  url_scheme :: string
  url_netloc :: string
  url_path :: string
  url_query :: string
  url_fragment :: string

definition is_alpha :: "char \<Rightarrow> bool" where
  "is_alpha c = (let n = (of_char c :: nat) in (65 \<le> n \<and> n \<le> 90) \<or> (97 \<le> n \<and> n \<le> 122))"

definition is_scheme_char :: "char \<Rightarrow> bool" where
  "is_scheme_char c =
     (let n = (of_char c :: nat)
      in is_alpha c \<or> (48 \<le> n \<and> n \<le> 57) \<or> c \<in> set ''+-.'')"

definition urlsplit :: "string \<Rightarrow> string \<Rightarrow> split_url" where
  "urlsplit url default_scheme =
     (let pre = takeWhile (\<lambda>c. c \<noteq> CHR '':'') url;
          has_scheme = (CHR '':'' \<in> set url \<and> pre \<noteq> [] \<and> is_alpha (hd pre)
                        \<and> list_all is_scheme_char pre);
          scheme = (if has_scheme then lower pre else default_scheme);
          url = (if has_scheme then drop (length pre + 1) url else url);
          netloc = (if startswith url ''//''
                    then takeWhile (\<lambda>c. c \<notin> set ''/?#'') (drop 2 url) else []);
          url = (if startswith url ''//''
                 then dropWhile (\<lambda>c. c \<notin> set ''/?#'') (drop 2 url) else url);
          fragment = drop 1 (dropWhile (\<lambda>c. c \<noteq> CHR ''#'') url);
          url = takeWhile (\<lambda>c. c \<noteq> CHR ''#'') url;
          query = drop 1 (dropWhile (\<lambda>c. c \<noteq> CHR ''?'') url);
          url = takeWhile (\<lambda>c. c \<noteq> CHR ''?'') url
      in \<lparr>url_scheme = scheme, url_netloc = netloc, url_path = url,
          url_query = query, url_fragment = fragment\<rparr>)"

definition uses_relative :: "string list" where
  "uses_relative = ['''', ''ftp'', ''http'', ''gopher'', ''nntp'', ''imap'', ''wais'', ''file'',
     ''https'', ''shttp'', ''mms'', ''prospero'', ''rtsp'', ''rtspu'', ''sftp'', ''svn'',
     ''svn+ssh'', ''ws'', ''wss'']"

definition uses_netloc :: "string list" where
  "uses_netloc = ['''', ''ftp'', ''http'', ''gopher'', ''nntp'', ''telnet'', ''imap'', ''wais'',
     ''file'', ''mms'', ''https'', ''shttp'', ''snews'', ''prospero'', ''rtsp'', ''rtspu'',
     ''rsync'', ''svn'', ''svn+ssh'', ''sftp'', ''nfs'', ''git'', ''git+ssh'', ''ws'', ''wss'']"

definition urlunsplit :: "split_url \<Rightarrow> string" where
  "urlunsplit u =
     (let url = url_path u;
          url = (if url_netloc u \<noteq> []
                    \<or> (url_scheme u \<noteq> [] \<and> url_scheme u \<in> set uses_netloc
                        \<and> \<not> startswith url ''//'')
                 then ''//'' @ url_netloc u
                        @ (if url \<noteq> [] \<and> \<not> startswith url ''/'' then ''/'' @ url else url)
                 else url);
          url = (if url_scheme u \<noteq> [] then url_scheme u @ '':'' @ url else url);
          url = (if url_query u \<noteq> [] then url @ ''?'' @ url_query u else url)
      in if url_fragment u \<noteq> [] then url @ ''#'' @ url_fragment u else url)"

fun resolve_segments :: "string list \<Rightarrow> string list \<Rightarrow> string list" where
  "resolve_segments [] resolved_path = resolved_path"
| "resolve_segments (seg # segs) resolved_path =
     (if seg = ''..'' then resolve_segments segs (butlast resolved_path)
      else if seg = ''.'' then resolve_segments segs resolved_path
      else resolve_segments segs (resolved_path @ [seg]))"

definition urljoin_std :: "string \<Rightarrow> string \<Rightarrow> string" where
  "urljoin_std base url =
     (if base = [] then url
      else if url = [] then base
      else
        let b = urlsplit base [];
            u = urlsplit url (url_scheme b)
        in if url_scheme u \<noteq> url_scheme b \<or> url_scheme u \<notin> set uses_relative then url
           else if url_scheme u \<in> set uses_netloc \<and> url_netloc u \<noteq> [] then urlunsplit u
           else
             let netloc = (if url_scheme u \<in> set uses_netloc then url_netloc b else url_netloc u)
             in if url_path u = []
                then urlunsplit (u\<lparr>url_netloc := netloc, url_path := url_path b,
                       url_query := (if url_query u = [] then url_query b else url_query u)\<rparr>)
                else
                  let base_parts = split_on CHR ''/'' (url_path b);
                      base_parts = (if last base_parts \<noteq> [] then butlast base_parts
                                    else base_parts);
                      segments =
                        (if startswith (url_path u) ''/'' then split_on CHR ''/'' (url_path u)
                         else
                           let segs = base_parts @ split_on CHR ''/'' (url_path u)
                           in if length segs \<le> 2 then segs
                              else hd segs # filter (\<lambda>x. x \<noteq> []) (butlast (tl segs))
                                     @ [last segs]);
                      resolved_path = resolve_segments segments [];
                      resolved_path = (if last segments \<in> {''.'', ''..''}
                                       then resolved_path @ [[]] else resolved_path);
                      joined = join_with ''/'' resolved_path
                  in urlunsplit (u\<lparr>url_netloc := netloc,
                       url_path := (if joined = [] then ''/'' else joined)\<rparr>))"

section \<open>An example site\<close>

text \<open>
  A world with a handful of pages, for the examples. Element serialisations are written
  without quotes around attribute values. A regular file is in the way of the directory
  \<open>site/content/blog/2024/01\<close>, so creating it fails.
\<close>

definition page_ok :: string where
  "page_ok = ''<h1>Hello, World!  Foo</h1><article><img src=/img/x.png data-src=/img/x.png></article>''"

definition page_dated :: string where
  "page_dated = ''<h1>Old Post</h1><article>text</article><time>2024/01/05</time>''"

definition page_notitle :: string where
  "page_notitle = ''<article>body</article>''"

definition page_emptytitle :: string where
  "page_emptytitle = ''<h1></h1><article>body</article>''"

definition demo_get :: "string \<Rightarrow> exn + response" where
  "demo_get url =
     (if url = ''https://example.com/a/b''
      then Inr \<lparr>status_code = 200, resp_text = page_ok, resp_url = url\<rparr>
      else if url = ''http://example.com/old''
      then Inr \<lparr>status_code = 200, resp_text = page_ok, resp_url = ''https://example.com/a/b''\<rparr>
      else if url = ''https://example.com/dated''
      then Inr \<lparr>status_code = 200, resp_text = page_dated, resp_url = url\<rparr>
      else if url = ''https://example.com/notitle''
      then Inr \<lparr>status_code = 200, resp_text = page_notitle, resp_url = url\<rparr>
      else if url = ''https://example.com/emptytitle''
      then Inr \<lparr>status_code = 200, resp_text = page_emptytitle, resp_url = url\<rparr>
      else if url = ''https://example.com/empty''
      then Inr \<lparr>status_code = 200, resp_text = [], resp_url = url\<rparr>
      else if url = ''https://example.com/missing''
      then Inr \<lparr>status_code = 404, resp_text = ''Not Found'', resp_url = url\<rparr>
      else Inl RequestException)"

definition demo_get_stream :: "string \<Rightarrow> exn + stream_response" where
  "demo_get_stream url =
     (if url = ''https://example.com/img/x.png''
         \<or> url = ''http://example.com/img/x.png''
         \<or> url = ''https://cdn.example.org/other/x.png?v=2''
      then Inr \<lparr>stream_status = 200, stream_chunks = [''PNG'', ''DATA''], stream_error = None\<rparr>
      else Inl RequestException)"

definition demo_xpath :: "string \<Rightarrow> string \<Rightarrow> exn + xnode list" where
  "demo_xpath html xpath =
     (if xpath = ''//h1'' \<and> html = page_ok then Inr [Element ''<h1>Hello, World!  Foo</h1>'']
      else if xpath = ''//h1'' \<and> html = page_dated then Inr [Element ''<h1>Old Post</h1>'']
      else if xpath = ''//h1'' \<and> html = page_emptytitle then Inr [Element ''<h1></h1>'']
      else if xpath = ''//article'' \<and> html = page_ok
      then Inr [Element ''<article><img src=/img/x.png data-src=/img/x.png></article>'']
      else if xpath = ''//article'' \<and> html = page_dated then Inr [Element ''<article>text</article>'']
      else if xpath = ''//article'' \<and> (html = page_notitle \<or> html = page_emptytitle)
      then Inr [Element ''<article>body</article>'']
      else if xpath = ''//time'' \<and> html = page_dated then Inr [Element ''<time>2024/01/05</time>'']
      else if xpath = ''//img'' \<and> html = page_ok
      then Inr [Element ''<img src=/img/x.png data-src=/img/x.png>'']
      else if xpath = ''//img/@src'' \<and> html = page_ok then Inr [TextNode ''/img/x.png'']
      else if xpath = ''//['' then Inl OtherException
      else Inr [])"

definition demo_get_text :: "string \<Rightarrow> string" where
  "demo_get_text h =
     (if h = ''<h1>Hello, World!  Foo</h1>'' then ''Hello, World!  Foo''
      else if h = ''<h1>Old Post</h1>'' then ''Old Post''
      else if h = ''<time>2024/01/05</time>'' then ''2024/01/05''
      else if h = ''<article>text</article>'' then ''text''
      else if h = ''<article>body</article>'' then ''body''
      else [])"

definition demo_soup_get :: "string \<Rightarrow> string \<Rightarrow> string option" where
  "demo_soup_get h a =
     (if h = ''<img src=/img/x.png data-src=/img/x.png>'' \<and> (a = ''src'' \<or> a = ''data-src'')
      then Some ''/img/x.png''
      else None)"

definition demo_img_srcs :: "string \<Rightarrow> string option list" where
  "demo_img_srcs h =
     (if h = ''<article><img src=/img/x.png data-src=/img/x.png></article>''
      then [Some ''/img/x.png'']
      else [])"

definition demo_with_srcs :: "string \<Rightarrow> string option list \<Rightarrow> string" where
  "demo_with_srcs h srcs =
     (if srcs = [] then h
      else ''<article>''
             @ concat (map (\<lambda>v. ''<img src='' @ format_value v @ '' data-src=/img/x.png>'') srcs)
             @ ''</article>'')"

definition demo_world :: world where
  "demo_world =
     \<lparr>requests_get = demo_get,
      requests_get_stream = demo_get_stream,
      etree_xpath = demo_xpath,
      soup_get_text = demo_get_text,
      soup_str = (\<lambda>h. h),
      soup_get = demo_soup_get,
      img_srcs = demo_img_srcs,
      soup_with_srcs = demo_with_srcs,
      urljoin = urljoin_std,
      markdownify = (\<lambda>h. Inr h),
      today = ''2024-01-05'',
      timestamp = ''20240105120000'',
      makedirs_error = (\<lambda>d. d = ''site/content/blog/2024/01''),
      fs_write = (\<lambda>p d. WriteOk),
      append_error = (\<lambda>p. False)\<rparr>"

definition rule :: "string \<Rightarrow> string \<Rightarrow> field_config" where
  "rule x a = \<lparr>rule_xpath = Some x, rule_attribute = Some a\<rparr>"

definition demo_config :: config where
  "demo_config =
     \<lparr>project_root = ''site'',
      config_fields = [(''title'', rule ''//h1'' ''text''), (''content'', rule ''//article'' ''html''),
                       (''date'', rule ''//time'' ''text'')]\<rparr>"

text \<open>The same with a field that reads the \<open>src\<close> of the first image.\<close>

definition image_config :: config where
  "image_config =
     \<lparr>project_root = ''site'',
      config_fields = [(''title'', rule ''//h1'' ''text''), (''content'', rule ''//article'' ''html''),
                       (''image'', rule ''//img'' ''src'')]\<rparr>"

text \<open>A configuration whose \<open>date\<close> rule has no \<open>xpath\<close> and whose \<open>author\<close> rule has no
  \<open>attribute\<close>, and one whose \<open>title\<close> rule has no \<open>xpath\<close>.\<close>

definition nodate_config :: config where
  "nodate_config =
     \<lparr>project_root = ''site'',
      config_fields = [(''title'', rule ''//h1'' ''text''), (''content'', rule ''//article'' ''html''),
                       (''date'', \<lparr>rule_xpath = None, rule_attribute = Some ''text''\<rparr>),
                       (''author'', \<lparr>rule_xpath = Some ''//span'', rule_attribute = None\<rparr>)]\<rparr>"

definition notitle_config :: config where
  "notitle_config =
     \<lparr>project_root = ''site'',
      config_fields = [(''title'', \<lparr>rule_xpath = None, rule_attribute = Some ''text''\<rparr>),
                       (''content'', rule ''//article'' ''html'')]\<rparr>"

definition empty_state :: state where
  "empty_state = \<lparr>files = Map.empty, ledger = [], events = []\<rparr>"

section \<open>The shape of a slug\<close>

text \<open>
  No two hyphens in a row; and a string of lower-case word characters and hyphens with no
  two hyphens in a row, which is what \<open>sanitize_filename\<close> returns.
\<close>

definition no_double :: "string \<Rightarrow> bool" where
  "no_double s = successively (\<lambda>x y. \<not> (x = CHR ''-'' \<and> y = CHR ''-'')) s"

definition slug_like :: "string \<Rightarrow> bool" where
  "slug_like r = (list_all (\<lambda>c. (is_word c \<or> c = CHR ''-'') \<and> lower_char c = c) r \<and> no_double r)"

section \<open>Steps of the state\<close>

text \<open>
  A step from \<open>s\<close> to \<open>s'\<close> is quiet when it leaves the ledger alone: the lines are the
  same, and the effects added to those of \<open>s\<close> hold no append.
\<close>

definition is_append :: "event \<Rightarrow> bool" where
  "is_append e = (case e of LedgerAppend u \<Rightarrow> True | _ \<Rightarrow> False)"

definition quiet_step :: "state \<Rightarrow> state \<Rightarrow> bool" where
  "quiet_step s s' =
     (ledger s' = ledger s
      \<and> take (length (events s)) (events s') = events s
      \<and> \<not> list_ex is_append (drop (length (events s)) (events s')))"

lemma emit_simps [simp]:
  "files (emit e s) = files s" "ledger (emit e s) = ledger s"
  "events (emit e s) = events s @ [e]"
  by (simp_all add: emit_def)

lemma quiet_step_refl [simp]: "quiet_step s s"
  by (simp add: quiet_step_def)

lemma quiet_stepI:
  "ledger s' = ledger s \<Longrightarrow> events s' = events s @ evs \<Longrightarrow> \<not> list_ex is_append evs
   \<Longrightarrow> quiet_step s s'"
  by (simp add: quiet_step_def)

lemma quiet_stepD:
  assumes "quiet_step s s'"
  shows "ledger s' = ledger s"
    and "\<exists>evs. events s' = events s @ evs \<and> \<not> list_ex is_append evs"
proof -
  show "ledger s' = ledger s" using assms by (simp add: quiet_step_def)
  have "events s' = events s @ drop (length (events s)) (events s')"
    using assms by (metis append_take_drop_id quiet_step_def)
  then show "\<exists>evs. events s' = events s @ evs \<and> \<not> list_ex is_append evs"
    using assms unfolding quiet_step_def by blast
qed

lemma quiet_step_trans: "quiet_step s s1 \<Longrightarrow> quiet_step s1 s2 \<Longrightarrow> quiet_step s s2"
proof -
  assume a: "quiet_step s s1" and b: "quiet_step s1 s2"
  obtain e1 where e1: "events s1 = events s @ e1" "\<not> list_ex is_append e1"
    using quiet_stepD(2)[OF a] by blast
  obtain e2 where e2: "events s2 = events s1 @ e2" "\<not> list_ex is_append e2"
    using quiet_stepD(2)[OF b] by blast
  show ?thesis
    by (rule quiet_stepI[where evs = "e1 @ e2"])
       (use e1 e2 quiet_stepD(1)[OF a] quiet_stepD(1)[OF b] in auto)
qed

lemma fetch_page_content_state:
  "fetch_page_content w url s = (r, s1) \<Longrightarrow> s1 = emit (HttpGet url) s"
  by (auto simp: fetch_page_content_def Let_def split: sum.splits exn.splits if_splits)

lemma quiet_emit: "\<not> is_append e \<Longrightarrow> quiet_step s (emit e s)"
  by (rule quiet_stepI[where evs = "[e]"]) simp_all

lemma quiet_files_update:
  "quiet_step s s1 \<Longrightarrow> quiet_step s (s1\<lparr>files := f\<rparr>)"
  by (simp add: quiet_step_def)

lemma download_image_quiet:
  "download_image w image_url save_dir base_url s = (r, s') \<Longrightarrow> quiet_step s s'"
  unfolding download_image_def Let_def
  by (auto split: if_splits sum.splits write_result.splits option.splits
      simp: quiet_step_def is_append_def)

lemma localize_srcs_quiet:
  "localize_srcs w srcs save_dir base_url s = (r, s') \<Longrightarrow> quiet_step s s'"
proof (induction srcs arbitrary: s r s')
  case Nil
  then show ?case by simp
next
  case (Cons a srcs)
  show ?case
  proof (cases a)
    case None
    with Cons show ?thesis by (auto split: prod.splits)
  next
    case (Some u)
    show ?thesis
    proof (cases "u = []")
      case True
      with Some Cons show ?thesis by (auto split: prod.splits)
    next
      case False
      obtain d s1 where d: "download_image w u save_dir base_url s = (d, s1)"
        by (cases "download_image w u save_dir base_url s")
      obtain rest s2 where l: "localize_srcs w srcs save_dir base_url s1 = (rest, s2)"
        by (cases "localize_srcs w srcs save_dir base_url s1")
      have "s' = s2"
        using Cons.prems Some False d l by (cases d) auto
      then show ?thesis
        using quiet_step_trans[OF download_image_quiet[OF d] Cons.IH[OF l]] by simp
    qed
  qed
qed

lemma download_content_images_quiet:
  "download_content_images w content_html save_dir base_url s = (r, s') \<Longrightarrow> quiet_step s s'"
  by (auto simp: download_content_images_def Let_def split: if_splits prod.splits
      dest: localize_srcs_quiet)

lemma create_markdown_file_cases:
  assumes "create_markdown_file w save_path front_matter content s = (r, s')"
  shows "quiet_step s s'"
    and "r = Inr True \<Longrightarrow>
           events s' = events s @ [FileWrite save_path]
           \<and> files s' save_path = Some (md_content_of front_matter content)"
  using assms unfolding create_markdown_file_def Let_def
  by (auto split: if_splits write_result.splits simp: quiet_step_def is_append_def)


lemma dict_get_with_date:
  "k \<noteq> ''date'' \<Longrightarrow> dict_get (with_date w d) k = dict_get d k"
  by (simp add: dict_get_def with_date_def update_conv')

lemma dict_get_final_fields:
  "k \<noteq> ''date'' \<Longrightarrow> k \<noteq> ''slug'' \<Longrightarrow> dict_get (final_fields w d t) k = dict_get d k"
  by (simp add: dict_get_def final_fields_def with_date_def update_conv')

lemma truthy_Some: "truthy v \<Longrightarrow> \<exists>x. v = Some x \<and> x \<noteq> []"
  by (cases v) (simp_all add: truthy_def)

lemma process_page_gate:
  "\<not> truthy (dict_get (extract_fields w html base_url (config_fields config) []) ''title'')
   \<or> \<not> truthy (dict_get (extract_fields w html base_url (config_fields config) []) ''content'')
   \<Longrightarrow> process_page w url config html base_url s = (Inr False, s)"
  by (simp add: process_page_def Let_def)


lemma process_page_result:
  assumes run: "process_page w url config html base_url s = (r, s')"
  shows "quiet_step s s'
         \<or> (r = Inr True \<and> ledger s' = ledger s @ [url]
            \<and> (\<exists>pre path doc. events s' = events s @ pre @ [FileWrite path, LedgerAppend url]
                  \<and> \<not> list_ex is_append pre \<and> files s' path = Some doc))"
proof -
  let ?ex = "extract_fields w html base_url (config_fields config) []"
  show ?thesis
  proof (cases "truthy (dict_get ?ex ''title'') \<and> truthy (dict_get ?ex ''content'')")
    case False
    then have "process_page w url config html base_url s = (Inr False, s)"
      by (intro process_page_gate) blast
    with run show ?thesis by simp
  next
    case True
    obtain title where title: "dict_get ?ex ''title'' = Some title"
      using True truthy_Some by blast
    obtain content_html where content: "dict_get ?ex ''content'' = Some content_html"
      using True truthy_Some by blast
    let ?ff = "final_fields w ?ex title"
    let ?path = "path_join (path_join (path_join (project_root config) ''content'') ''blog'')
                   (format_value (dict_get ?ff ''date'') @ ''-'' @ sanitize_filename title @ ''.md'')"
    let ?dir = "path_join (path_join (project_root config) ''static'') ''images''"
    obtain c s1 where dl: "download_content_images w content_html ?dir base_url s = (c, s1)"
      by (cases "download_content_images w content_html ?dir base_url s")
    have q1: "quiet_step s s1" by (rule download_content_images_quiet[OF dl])
    have t2: "dict_get (with_date w ?ex) ''title'' = Some title"
      using title by (simp add: dict_get_with_date)
    have c2: "dict_get ?ff ''content'' = Some content_html"
      using content by (simp add: dict_get_final_fields)
    show ?thesis
    proof (cases "markdownify w c")
      case (Inl e)
      then have "process_page w url config html base_url s = (Inl e, s1)"
        using True t2 c2 dl by (simp add: process_page_def Let_def)
      with run q1 show ?thesis by simp
    next
      case (Inr content_md)
      obtain r2 s2 where cm:
        "create_markdown_file w ?path (front_matter_of ?ff) content_md s1 = (r2, s2)"
        by (cases "create_markdown_file w ?path (front_matter_of ?ff) content_md s1")
      have q2: "quiet_step s s2"
        using quiet_step_trans[OF q1 create_markdown_file_cases(1)[OF cm]] .
      have unfold: "process_page w url config html base_url s =
          (case r2 of Inl e \<Rightarrow> (Inl e, s2)
           | Inr success \<Rightarrow>
               if success then (Inr True, mark_as_downloaded w (project_root config) url s2)
               else (Inr False, s2))"
        using True t2 c2 dl Inr cm by (simp add: process_page_def Let_def)
      show ?thesis
      proof (cases r2)
        case (Inl e)
        with unfold run q2 show ?thesis by simp
      next
        case (Inr success)
        show ?thesis
        proof (cases success)
          case False
          with Inr unfold run q2 show ?thesis by simp
        next
          case True
          have r: "r = Inr True" and s': "s' = mark_as_downloaded w (project_root config) url s2"
            using True Inr unfold run by simp_all
          have w2: "events s2 = events s1 @ [FileWrite ?path]"
            "files s2 ?path = Some (md_content_of (front_matter_of ?ff) content_md)"
            using create_markdown_file_cases(2)[OF cm] True Inr by simp_all
          obtain e1 where e1: "events s1 = events s @ e1" "\<not> list_ex is_append e1"
            using quiet_stepD(2)[OF q1] by blast
          show ?thesis
          proof (cases "append_error w (path_join (project_root config) ''downloaded.log'')")
            case True
            then have "s' = s2" using s' by (simp add: mark_as_downloaded_def Let_def)
            with q2 show ?thesis by simp
          next
            case False
            then have s'': "s' = emit (LedgerAppend url) (s2\<lparr>ledger := ledger s2 @ [url]\<rparr>)"
              using s' by (simp add: mark_as_downloaded_def Let_def)
            have "ledger s' = ledger s @ [url]"
              using s'' quiet_stepD(1)[OF q2] by simp
            moreover have "events s' = events s @ e1 @ [FileWrite ?path, LedgerAppend url]"
              using s'' w2(1) e1(1) by simp
            moreover have "files s' ?path = Some (md_content_of (front_matter_of ?ff) content_md)"
              using s'' w2(2) by simp
            ultimately show ?thesis using r e1(2) by blast
          qed
        qed
      qed
    qed
  qed
qed

lemma process_url_result:
  assumes run: "process_url w url config s = (r, s')"
  shows "quiet_step s s'
         \<or> (r = Inr True \<and> ledger s' = ledger s @ [url]
            \<and> (\<exists>pre path doc. events s' = events s @ pre @ [FileWrite path, LedgerAppend url]
                  \<and> \<not> list_ex is_append pre \<and> files s' path = Some doc))"
proof -
  obtain fr s1 where f: "fetch_page_content w url s = (fr, s1)"
    by (cases "fetch_page_content w url s")
  have s1: "s1 = emit (HttpGet url) s" by (rule fetch_page_content_state[OF f])
  have q1: "quiet_step s s1" unfolding s1 by (rule quiet_emit) (simp add: is_append_def)
  show ?thesis
  proof (cases "\<exists>html base_url. fr = Inr (Some html, base_url) \<and> html \<noteq> []")
    case False
    then have "s' = s1"
      using run f by (auto simp: process_url_def split: sum.splits option.splits if_splits)
    with q1 show ?thesis by simp
  next
    case True
    then obtain html base_url where fr: "fr = Inr (Some html, base_url)" "html \<noteq> []" by blast
    then have pp: "process_page w url config html base_url s1 = (r, s')"
      using run f by (simp add: process_url_def)
    from process_page_result[OF pp] show ?thesis
    proof
      assume "quiet_step s1 s'"
      then show ?thesis using quiet_step_trans[OF q1] by blast
    next
      assume a: "r = Inr True \<and> ledger s' = ledger s1 @ [url]
         \<and> (\<exists>pre path doc. events s' = events s1 @ pre @ [FileWrite path, LedgerAppend url]
               \<and> \<not> list_ex is_append pre \<and> files s' path = Some doc)"
      then obtain pre path doc where p:
        "events s' = events s1 @ pre @ [FileWrite path, LedgerAppend url]"
        "\<not> list_ex is_append pre" "files s' path = Some doc" by blast
      have "events s' = events s @ (HttpGet url # pre) @ [FileWrite path, LedgerAppend url]"
        using p(1) s1 by simp
      moreover have "\<not> list_ex is_append (HttpGet url # pre)"
        using p(2) by (simp add: is_append_def)
      ultimately show ?thesis using a p(3) s1 by (metis emit_simps(2))
    qed
  qed
qed

section \<open>The slug\<close>

text \<open>
  Applying \<open>sanitize_filename\<close> to one of its results only strips the hyphens of that
  result again: the result has no space, no other character to remove, no run of hyphens
  and no upper-case letter, and at most 100 characters.
\<close>

lemma collapse_hd: "collapse_hyphens (y # s) \<noteq> [] \<and> hd (collapse_hyphens (y # s)) = y"
  by (induction s arbitrary: y) auto

lemma collapse_no_double: "no_double (collapse_hyphens s)"
  unfolding no_double_def
  by (induction s rule: collapse_hyphens.induct) (auto simp: successively_Cons collapse_hd)

lemma collapse_fixed: "no_double s \<Longrightarrow> collapse_hyphens s = s"
  unfolding no_double_def
  by (induction s rule: collapse_hyphens.induct) auto

lemma collapse_set: "set (collapse_hyphens s) \<subseteq> set s"
  by (induction s rule: collapse_hyphens.induct) auto

lemma no_double_rev: "no_double (rev s) = no_double s"
proof -
  have "(\<lambda>x y. \<not> (y = CHR ''-'' \<and> x = CHR ''-'')) = (\<lambda>x y. \<not> (x = CHR ''-'' \<and> y = CHR ''-''))"
    by (intro ext) blast
  then show ?thesis unfolding no_double_def successively_rev by (simp only:)
qed

lemma no_double_append: "no_double (xs @ ys) \<Longrightarrow> no_double xs \<and> no_double ys"
  unfolding no_double_def by (simp add: successively_append_iff)

lemma no_double_take: "no_double s \<Longrightarrow> no_double (take n s)"
  using no_double_append[of "take n s" "drop n s"] by simp

lemma no_double_dropWhile: "no_double s \<Longrightarrow> no_double (dropWhile p s)"
  using no_double_append[of "takeWhile p s" "dropWhile p s"] by simp

lemma no_double_strip: "no_double s \<Longrightarrow> no_double (strip_with p s)"
  by (simp add: strip_with_def no_double_rev no_double_dropWhile)

lemma of_char_lower:
  "(of_char (lower_char c) :: nat)
   = (if 65 \<le> (of_char c :: nat) \<and> (of_char c :: nat) \<le> 90 then of_char c + 32 else of_char c)"
  by (simp add: lower_char_def Let_def)

lemma char_eq_code: "(c = d) = ((of_char c :: nat) = of_char d)"
  by simp

lemma lower_char_hyphen: "lower_char c = CHR ''-'' \<longleftrightarrow> c = CHR ''-''"
  unfolding char_eq_code[of "lower_char c"] char_eq_code[of c] of_char_lower by simp

lemma no_double_lower: "no_double s \<Longrightarrow> no_double (lower s)"
  unfolding no_double_def lower_def by (simp add: successively_map lower_char_hyphen)

lemma set_strip: "set (strip_with p s) \<subseteq> set s"
  unfolding strip_with_def by (auto dest!: set_dropWhileD)

lemma lower_char_idem: "lower_char (lower_char c) = lower_char c"
  unfolding char_eq_code[of "lower_char (lower_char c)"] of_char_lower by simp

lemma is_word_lower: "is_word (lower_char c) = is_word c"
  unfolding is_word_def Let_def of_char_lower by auto

lemma space_not_kept: "\<not> (is_word CHR '' '' \<or> CHR '' '' = CHR ''-'')"
  by (simp add: is_word_def)

lemma replace_char_absent: "c \<notin> set s \<Longrightarrow> replace_char c r s = s"
  by (induction s) (auto simp: replace_char_def)

lemma strip_with_length: "length (strip_with p s) \<le> length s"
proof -
  have "length (dropWhile p (rev (dropWhile p s))) \<le> length (rev (dropWhile p s))"
    by (rule length_dropWhile_le)
  also have "\<dots> \<le> length s" by (simp add: length_dropWhile_le)
  finally show ?thesis by (simp add: strip_with_def)
qed

lemma sanitize_slug_like:
  assumes "slug_like r"
  shows "sanitize_filename r = take 100 (strip_with (\<lambda>c. c = CHR ''-'') r)"
proof -
  have all: "\<forall>c \<in> set r. (is_word c \<or> c = CHR ''-'') \<and> lower_char c = c"
    using assms by (simp add: slug_like_def list_all_iff)
  have nd: "no_double r" using assms by (simp add: slug_like_def)
  have "CHR '' '' \<notin> set r" using all space_not_kept by blast
  then have 1: "replace_char CHR '' '' ''-'' r = r" by (rule replace_char_absent)
  have 2: "filter (\<lambda>c. is_word c \<or> c = CHR ''-'') r = r" using all by (simp add: filter_id_conv)
  have 3: "collapse_hyphens r = r" by (rule collapse_fixed[OF nd])
  have 4: "lower r = r" unfolding lower_def using all by (simp add: map_idI)
  show ?thesis by (simp add: sanitize_filename_def 1 2 3 4)
qed

lemma sanitize_is_slug_like: "slug_like (sanitize_filename s)"
proof -
  let ?f = "filter (\<lambda>c. is_word c \<or> c = CHR ''-'') (replace_char CHR '' '' ''-'' s)"
  let ?u = "collapse_hyphens ?f"
  let ?v = "lower ?u"
  have su: "\<forall>c \<in> set ?u. is_word c \<or> c = CHR ''-''"
    using collapse_set[of ?f] by auto
  have sv: "\<forall>c \<in> set ?v. (is_word c \<or> c = CHR ''-'') \<and> lower_char c = c"
  proof
    fix c assume "c \<in> set ?v"
    then obtain d where d: "d \<in> set ?u" "c = lower_char d" by (auto simp: lower_def)
    then have "is_word d \<or> d = CHR ''-''" using su by blast
    then show "(is_word c \<or> c = CHR ''-'') \<and> lower_char c = c"
      using d(2) by (simp add: is_word_lower lower_char_idem lower_char_hyphen)
  qed
  have ndv: "no_double ?v" by (intro no_double_lower collapse_no_double)
  let ?r = "take 100 (strip_with (\<lambda>c. c = CHR ''-'') ?v)"
  have "set ?r \<subseteq> set (strip_with (\<lambda>c. c = CHR ''-'') ?v)"
    by (rule set_take_subset)
  also have "\<dots> \<subseteq> set ?v" by (rule set_strip)
  finally have a: "\<forall>c \<in> set ?r. (is_word c \<or> c = CHR ''-'') \<and> lower_char c = c"
    using sv by blast
  have b: "no_double ?r" by (intro no_double_take no_double_strip ndv)
  have eq: "sanitize_filename s = ?r" by (simp add: sanitize_filename_def)
  show ?thesis unfolding eq slug_like_def list_all_iff using a b by blast
qed

lemma sanitize_length: "length (sanitize_filename s) \<le> 100"
  by (simp add: sanitize_filename_def)

lemma sanitize_twice:
  "sanitize_filename (sanitize_filename s)
   = strip_with (\<lambda>c. c = CHR ''-'') (sanitize_filename s)"
proof -
  have "length (strip_with (\<lambda>c. c = CHR ''-'') (sanitize_filename s)) \<le> 100"
    using strip_with_length[of "\<lambda>c. c = CHR ''-''" "sanitize_filename s"] sanitize_length[of s]
    by linarith
  then show ?thesis
    by (simp add: sanitize_slug_like[OF sanitize_is_slug_like])
qed

lemma strip_with_idem: "strip_with p (strip_with p s) = strip_with p s"
proof -
  let ?x = "dropWhile p s"
  let ?y = "rev (dropWhile p (rev ?x))"
  have x: "?x = ?y @ rev (takeWhile p (rev ?x))"
    by (metis rev_append rev_rev_ident takeWhile_dropWhile_id)
  have "dropWhile p ?y = ?y"
  proof (cases "?y = []")
    case True
    show ?thesis by (simp only: True dropWhile.simps)
  next
    case False
    then have "hd ?y = hd ?x" using x by (metis hd_append2)
    moreover have "?x \<noteq> []"
    proof
      assume e: "?x = []"
      have "?y = []" by (simp only: e rev.simps dropWhile.simps)
      with False show False by blast
    qed
    ultimately have "\<not> p (hd ?y)" using hd_dropWhile[of p s] by simp
    then show ?thesis using False by (cases ?y) auto
  qed
  then show ?thesis by (simp add: strip_with_def dropWhile_idem)
qed

text \<open>So the slug is a fixed point whenever the slice at 100 characters cuts nothing.\<close>

lemma sanitize_twice_short:
  assumes "length (strip_with (\<lambda>c. c = CHR ''-'')
             (lower (collapse_hyphens (filter (\<lambda>c. is_word c \<or> c = CHR ''-'')
                (replace_char CHR '' '' ''-'' s))))) \<le> 100"
  shows "sanitize_filename (sanitize_filename s) = sanitize_filename s"
proof -
  have "sanitize_filename s
        = strip_with (\<lambda>c. c = CHR ''-'')
            (lower (collapse_hyphens (filter (\<lambda>c. is_word c \<or> c = CHR ''-'')
               (replace_char CHR '' '' ''-'' s))))"
    using assms by (simp add: sanitize_filename_def)
  then show ?thesis
    using sanitize_twice[of s] strip_with_idem[of "\<lambda>c. c = CHR ''-''"] by metis
qed

text \<open>
  Claim C4: \<open>sanitize_filename\<close> is idempotent, and maps \<open>Hello, World!  Foo\<close> to
  \<open>hello-world-foo\<close>. The example holds. Idempotence fails where the slice at 100
  characters cuts right after a hyphen: the hyphens are stripped before the slice, so a
  title of 99 letters, a hyphen and one more letter gives a slug that ends with a hyphen,
  and the slug of that slug is one character shorter.
\<close>

theorem sanitize_filename_slice_after_strip:
  "sanitize_filename (replicate 99 CHR ''a'' @ ''-b'') = replicate 99 CHR ''a'' @ ''-''
   \<and> sanitize_filename (replicate 99 CHR ''a'' @ ''-'') = replicate 99 CHR ''a''
   \<and> sanitize_filename (sanitize_filename (replicate 99 CHR ''a'' @ ''-b''))
       \<noteq> sanitize_filename (replicate 99 CHR ''a'' @ ''-b'')
   \<and> sanitize_filename ''Hello, World!  Foo'' = ''hello-world-foo''"
proof -
  have first: "sanitize_filename (replicate 99 CHR ''a'' @ ''-b'') = replicate 99 CHR ''a'' @ ''-''"
    by code_simp
  have second: "sanitize_filename (replicate 99 CHR ''a'' @ ''-'') = replicate 99 CHR ''a''"
    by code_simp
  have example: "sanitize_filename ''Hello, World!  Foo'' = ''hello-world-foo''"
    by code_simp
  show ?thesis
    unfolding first second example by simp
qed

section \<open>The required-field gate\<close>

lemma process_url_gate:
  assumes fetched: "fetch_page_content w url s = (Inr (Some html, base_url), s1)"
    and html: "html \<noteq> []"
    and gate: "\<not> truthy (dict_get (extract_fields w html base_url (config_fields config) []) ''title'')
             \<or> \<not> truthy (dict_get (extract_fields w html base_url (config_fields config) []) ''content'')"
  shows "process_url w url config s = (Inr False, s1)"
    and "files s1 = files s" and "ledger s1 = ledger s" and "events s1 = events s @ [HttpGet url]"
proof -
  show "process_url w url config s = (Inr False, s1)"
    using fetched html process_page_gate[OF gate] by (simp add: process_url_def)
  have "s1 = emit (HttpGet url) s" by (rule fetch_page_content_state[OF fetched])
  then show "files s1 = files s" "ledger s1 = ledger s" "events s1 = events s @ [HttpGet url]"
    by simp_all
qed

text \<open>
  Claim C1: when the extraction gives no value (\<open>None\<close>, or no key at all) for \<open>title\<close> or
  for \<open>content\<close>, \<open>process_url\<close> returns \<open>False\<close> before anything is rendered: the files
  and the ledger are those of before, and the only effect is the request for the page.
\<close>

theorem null_required_field_fails:
  assumes fetched: "fetch_page_content w url s = (Inr (Some html, base_url), s1)"
    and html: "html \<noteq> []"
    and null: "dict_get (extract_fields w html base_url (config_fields config) []) ''title'' = None
             \<or> dict_get (extract_fields w html base_url (config_fields config) []) ''content'' = None"
  shows "process_url w url config s = (Inr False, s1)
         \<and> files s1 = files s \<and> ledger s1 = ledger s \<and> events s1 = events s @ [HttpGet url]"
proof -
  have "\<not> truthy (dict_get (extract_fields w html base_url (config_fields config) []) ''title'')
        \<or> \<not> truthy (dict_get (extract_fields w html base_url (config_fields config) []) ''content'')"
    using null by (auto simp: truthy_def)
  from process_url_gate[OF fetched html this] show ?thesis by simp
qed

theorem null_required_field_fails_witness:
  "fetch_page_content demo_world ''https://example.com/notitle'' empty_state
     = (Inr (Some page_notitle, ''https://example.com/notitle''),
        emit (HttpGet ''https://example.com/notitle'') empty_state)
   \<and> dict_get (extract_fields demo_world page_notitle ''https://example.com/notitle''
        (config_fields demo_config) []) ''title'' = None
   \<and> process_url demo_world ''https://example.com/notitle'' demo_config empty_state
     = (Inr False, emit (HttpGet ''https://example.com/notitle'') empty_state)
   \<and> files (emit (HttpGet ''https://example.com/notitle'') empty_state) = Map.empty
   \<and> ledger (emit (HttpGet ''https://example.com/notitle'') empty_state) = []"
proof -
  have f: "fetch_page_content demo_world ''https://example.com/notitle'' empty_state
     = (Inr (Some page_notitle, ''https://example.com/notitle''),
        emit (HttpGet ''https://example.com/notitle'') empty_state)"
    by (simp add: fetch_page_content_def demo_world_def demo_get_def http_error_def)
  have h: "page_notitle \<noteq> []" by (simp add: page_notitle_def)
  have n: "dict_get (extract_fields demo_world page_notitle ''https://example.com/notitle''
        (config_fields demo_config) []) ''title'' = None"
    by code_simp
  show ?thesis
    using null_required_field_fails[OF f h disjI1[OF n]]
      f n by (simp add: empty_state_def)
qed

text \<open>
  Claim C9: the gate tests truth, not only \<open>None\<close>: when the extracted \<open>title\<close> or
  \<open>content\<close> is the empty string, \<open>process_url\<close> returns \<open>False\<close> with the files and the
  ledger untouched, the result it gives for a missing value.
\<close>

theorem empty_required_field_fails:
  assumes fetched: "fetch_page_content w url s = (Inr (Some html, base_url), s1)"
    and html: "html \<noteq> []"
    and empty: "dict_get (extract_fields w html base_url (config_fields config) []) ''title'' = Some []
              \<or> dict_get (extract_fields w html base_url (config_fields config) []) ''content'' = Some []"
  shows "process_url w url config s = (Inr False, s1)
         \<and> files s1 = files s \<and> ledger s1 = ledger s \<and> events s1 = events s @ [HttpGet url]"
proof -
  have "\<not> truthy (dict_get (extract_fields w html base_url (config_fields config) []) ''title'')
        \<or> \<not> truthy (dict_get (extract_fields w html base_url (config_fields config) []) ''content'')"
    using empty by (auto simp: truthy_def)
  from process_url_gate[OF fetched html this] show ?thesis by simp
qed

theorem empty_required_field_fails_witness:
  "fetch_page_content demo_world ''https://example.com/emptytitle'' empty_state
     = (Inr (Some page_emptytitle, ''https://example.com/emptytitle''),
        emit (HttpGet ''https://example.com/emptytitle'') empty_state)
   \<and> dict_get (extract_fields demo_world page_emptytitle ''https://example.com/emptytitle''
        (config_fields demo_config) []) ''title'' = Some []
   \<and> process_url demo_world ''https://example.com/emptytitle'' demo_config empty_state
     = (Inr False, emit (HttpGet ''https://example.com/emptytitle'') empty_state)
   \<and> files (emit (HttpGet ''https://example.com/emptytitle'') empty_state) = Map.empty
   \<and> ledger (emit (HttpGet ''https://example.com/emptytitle'') empty_state) = []"
proof -
  have f: "fetch_page_content demo_world ''https://example.com/emptytitle'' empty_state
     = (Inr (Some page_emptytitle, ''https://example.com/emptytitle''),
        emit (HttpGet ''https://example.com/emptytitle'') empty_state)"
    by (simp add: fetch_page_content_def demo_world_def demo_get_def http_error_def)
  have h: "page_emptytitle \<noteq> []" by (simp add: page_emptytitle_def)
  have n: "dict_get (extract_fields demo_world page_emptytitle ''https://example.com/emptytitle''
        (config_fields demo_config) []) ''title'' = Some []"
    by code_simp
  show ?thesis
    using empty_required_field_fails[OF f h disjI1[OF n]] f n by (simp add: empty_state_def)
qed

section \<open>An empty body\<close>

text \<open>
  Claim C8: a response with a success status and an empty body is treated as a failed
  fetch. \<open>process_url\<close> returns \<open>False\<close>, and the state it leaves is the one a world in
  which the request raises would leave: only the request was made, whatever the
  configuration says, and neither the files nor the ledger change.
\<close>

theorem empty_body_is_fetch_failure:
  assumes ok: "requests_get w url = Inr response" "\<not> http_error (status_code response)"
    and empty: "resp_text response = []"
    and failing: "requests_get w_fail url = Inl RequestException"
  shows "process_url w url config s = (Inr False, emit (HttpGet url) s)
         \<and> process_url w_fail url config s = (Inr False, emit (HttpGet url) s)
         \<and> files (emit (HttpGet url) s) = files s
         \<and> ledger (emit (HttpGet url) s) = ledger s
         \<and> events (emit (HttpGet url) s) = events s @ [HttpGet url]"
  using ok empty failing by (simp add: process_url_def fetch_page_content_def Let_def)

theorem empty_body_is_fetch_failure_witness:
  "requests_get demo_world ''https://example.com/empty''
     = Inr \<lparr>status_code = 200, resp_text = [], resp_url = ''https://example.com/empty''\<rparr>
   \<and> requests_get (demo_world\<lparr>requests_get := \<lambda>u. Inl RequestException\<rparr>)
         ''https://example.com/empty'' = Inl RequestException
   \<and> process_url demo_world ''https://example.com/empty'' demo_config empty_state
     = (Inr False, emit (HttpGet ''https://example.com/empty'') empty_state)
   \<and> process_url (demo_world\<lparr>requests_get := \<lambda>u. Inl RequestException\<rparr>)
         ''https://example.com/empty'' demo_config empty_state
     = (Inr False, emit (HttpGet ''https://example.com/empty'') empty_state)"
proof -
  have g: "requests_get demo_world ''https://example.com/empty''
     = Inr \<lparr>status_code = 200, resp_text = [], resp_url = ''https://example.com/empty''\<rparr>"
    by (simp add: demo_world_def demo_get_def)
  have c: "\<not> http_error (status_code
      \<lparr>status_code = 200, resp_text = [], resp_url = ''https://example.com/empty''\<rparr>)"
    by (simp add: http_error_def)
  have e: "resp_text \<lparr>status_code = 200, resp_text = [], resp_url = ''https://example.com/empty''\<rparr> = []"
    by simp
  have x: "requests_get (demo_world\<lparr>requests_get := \<lambda>u. Inl RequestException\<rparr>)
         ''https://example.com/empty'' = Inl RequestException"
    by simp
  show ?thesis
    using empty_body_is_fetch_failure[OF g c e x, of demo_config empty_state] g x by simp
qed

section \<open>The ledger is appended to after the document is written\<close>


lemma demo_ok_ledger:
  "ledger (snd (process_url demo_world ''https://example.com/a/b'' demo_config empty_state))
   = [''https://example.com/a/b'']"
  by code_simp


section \<open>Exceptions that leave \<open>process_url\<close>\<close>

text \<open>
  Claim C3: no exception of a per-URL step reaches the orchestration loop, so the failure
  of one URL never keeps the later ones from being processed. In \<open>create_markdown_file\<close>
  the call of \<open>os.makedirs\<close> stands before the \<open>try\<close> (in \<open>download_image\<close> it stands
  inside), and \<open>process_url\<close> calls \<open>md\<close> outside any \<open>try\<close>. On the example site the
  page \<open>/dated\<close> carries the date \<open>2024/01/05\<close>, the directory of its document cannot be
  created, the exception leaves \<open>process_url\<close> and the run ends with \<open>sys.exit(1)\<close>
  before the next URL is requested, though that URL is processed well on its own. A failed
  fetch, which is caught, lets the loop go on. An exception of the Markdown conversion
  leaves \<open>process_url\<close> as well.
\<close>

theorem makedirs_exception_ends_the_run:
  "fst (process_url demo_world ''https://example.com/dated'' demo_config empty_state) = Inl OSError
   \<and> fst (main_run demo_world demo_config
            [''https://example.com/dated'', ''https://example.com/a/b''] empty_state) = Exit1
   \<and> events (snd (main_run demo_world demo_config
            [''https://example.com/dated'', ''https://example.com/a/b''] empty_state))
       = [HttpGet ''https://example.com/dated'']
   \<and> fst (process_url demo_world ''https://example.com/a/b'' demo_config empty_state) = Inr True
   \<and> fst (main_run demo_world demo_config
            [''https://example.com/missing'', ''https://example.com/a/b''] empty_state) = Completed
   \<and> ledger (snd (main_run demo_world demo_config
            [''https://example.com/missing'', ''https://example.com/a/b''] empty_state))
       = [''https://example.com/a/b'']
   \<and> fst (process_url (demo_world\<lparr>markdownify := \<lambda>h. Inl OtherException\<rparr>)
            ''https://example.com/a/b'' demo_config empty_state) = Inl OtherException"
  by code_simp

section \<open>The base URL\<close>


lemma extract_field_requests_get:
  "extract_field (w\<lparr>requests_get := g\<rparr>) html xpath attribute base_url
   = extract_field w html xpath attribute base_url"
  by (simp add: extract_field_def
      cong: sum.case_cong list.case_cong xnode.case_cong option.case_cong if_cong)

lemma extract_fields_requests_get:
  "extract_fields (w\<lparr>requests_get := g\<rparr>) html base_url cfs acc
   = extract_fields w html base_url cfs acc"
  by (induction cfs arbitrary: acc)
     (auto simp: extract_field_requests_get split: option.splits)

lemma download_image_requests_get:
  "download_image (w\<lparr>requests_get := g\<rparr>) image_url save_dir base_url s
   = download_image w image_url save_dir base_url s"
  by (simp add: download_image_def absolute_image_url_def image_name_of_def
      cong: sum.case_cong option.case_cong write_result.case_cong if_cong)

lemma localize_srcs_requests_get:
  "localize_srcs (w\<lparr>requests_get := g\<rparr>) srcs save_dir base_url s
   = localize_srcs w srcs save_dir base_url s"
  by (induction srcs arbitrary: s)
     (auto simp: download_image_requests_get split: option.splits prod.splits)

lemma download_content_images_requests_get:
  "download_content_images (w\<lparr>requests_get := g\<rparr>) content_html save_dir base_url s
   = download_content_images w content_html save_dir base_url s"
  by (simp add: download_content_images_def localize_srcs_requests_get)

lemma process_page_requests_get:
  "process_page (w\<lparr>requests_get := g\<rparr>) url config html base_url s
   = process_page w url config html base_url s"
  by (simp add: process_page_def extract_fields_requests_get download_content_images_requests_get
      final_fields_def with_date_def create_markdown_file_def mark_as_downloaded_def
      cong: sum.case_cong option.case_cong write_result.case_cong prod.case_cong if_cong)



section \<open>Attribute values\<close>


lemma startswith_slash_not_http: "startswith v ''/'' \<Longrightarrow> \<not> startswith v ''http''"
  by (cases v) (auto simp: startswith_def)



section \<open>Images already on disk\<close>

lemma download_image_success:
  assumes "download_image w image_url save_dir base_url s = (Some name, s1)"
  shows "image_url \<noteq> []" and "\<not> makedirs_error w save_dir"
    and "name = image_name_of w (absolute_image_url w image_url base_url)"
    and "files s1 (path_join save_dir name) \<noteq> None"
  using assms unfolding download_image_def Let_def
  by (auto split: if_splits sum.splits write_result.splits option.splits)

lemma download_image_existing:
  assumes "image_url \<noteq> []" and "\<not> makedirs_error w save_dir"
    and "files s (path_join save_dir (image_name_of w (absolute_image_url w image_url base_url)))
         \<noteq> None"
  shows "download_image w image_url save_dir base_url s
         = (Some (image_name_of w (absolute_image_url w image_url base_url)), s)"
  using assms by (simp add: download_image_def Let_def)

text \<open>
  Claim C7: when the local name computed for an image URL is the name of a file that
  exists in the destination directory (which then exists, so that \<open>os.makedirs\<close> does not
  raise), \<open>download_image\<close> returns that name and changes nothing: no request is sent.
  Hence after a download that returned a name, a second URL with the same local name is
  served from the file.
\<close>

theorem existing_image_is_reused:
  "(image_url \<noteq> [] \<and> \<not> makedirs_error w save_dir
    \<and> files s (path_join save_dir (image_name_of w (absolute_image_url w image_url base_url)))
        \<noteq> None
    \<longrightarrow> download_image w image_url save_dir base_url s
        = (Some (image_name_of w (absolute_image_url w image_url base_url)), s))
   \<and> (download_image w first_url save_dir base_url s = (Some name, s')
      \<and> second_url \<noteq> []
      \<and> image_name_of w (absolute_image_url w second_url base_url) = name
      \<longrightarrow> download_image w second_url save_dir base_url s' = (Some name, s'))"
proof (intro conjI impI)
  assume "image_url \<noteq> [] \<and> \<not> makedirs_error w save_dir
    \<and> files s (path_join save_dir (image_name_of w (absolute_image_url w image_url base_url)))
        \<noteq> None"
  then show "download_image w image_url save_dir base_url s
        = (Some (image_name_of w (absolute_image_url w image_url base_url)), s)"
    by (simp add: download_image_existing)
next
  assume a: "download_image w first_url save_dir base_url s = (Some name, s')
      \<and> second_url \<noteq> []
      \<and> image_name_of w (absolute_image_url w second_url base_url) = name"
  then have d: "download_image w first_url save_dir base_url s = (Some name, s')" by simp
  show "download_image w second_url save_dir base_url s' = (Some name, s')"
    using download_image_existing[of second_url w save_dir s' base_url]
      download_image_success(2,4)[OF d] a by simp
qed

lemma demo_first_image:
  "fst (download_image demo_world ''/img/x.png'' ''site/static/images''
          ''https://example.com/a/b'' empty_state) = Some ''x.png''"
  by code_simp

lemma demo_second_image_name:
  "image_name_of demo_world (absolute_image_url demo_world
      ''https://cdn.example.org/other/x.png?v=2'' ''https://example.com/a/b'') = ''x.png''"
  by code_simp

theorem existing_image_is_reused_witness:
  "fst (download_image demo_world ''/img/x.png'' ''site/static/images''
          ''https://example.com/a/b'' empty_state) = Some ''x.png''
   \<and> events (snd (download_image demo_world ''/img/x.png'' ''site/static/images''
          ''https://example.com/a/b'' empty_state))
       = [HttpGet ''https://example.com/img/x.png'', FileWrite ''site/static/images/x.png'']
   \<and> image_name_of demo_world (absolute_image_url demo_world
        ''https://cdn.example.org/other/x.png?v=2'' ''https://example.com/a/b'') = ''x.png''
   \<and> download_image demo_world ''https://cdn.example.org/other/x.png?v=2'' ''site/static/images''
        ''https://example.com/a/b''
        (snd (download_image demo_world ''/img/x.png'' ''site/static/images''
               ''https://example.com/a/b'' empty_state))
     = (Some ''x.png'',
        snd (download_image demo_world ''/img/x.png'' ''site/static/images''
               ''https://example.com/a/b'' empty_state))"
proof -
  let ?first = "download_image demo_world ''/img/x.png'' ''site/static/images''
                  ''https://example.com/a/b'' empty_state"
  have d: "?first = (Some ''x.png'', snd ?first)"
    using demo_first_image by (metis prod.collapse)
  have n: "''https://cdn.example.org/other/x.png?v=2'' \<noteq> []" by simp
  have e: "events (snd ?first)
       = [HttpGet ''https://example.com/img/x.png'', FileWrite ''site/static/images/x.png'']"
    by code_simp
  show ?thesis
    using existing_image_is_reused[where w = demo_world and first_url = "''/img/x.png''"
        and second_url = "''https://cdn.example.org/other/x.png?v=2''"
        and save_dir = "''site/static/images''" and base_url = "''https://example.com/a/b''"
        and s = empty_state and s' = "snd ?first" and name = "''x.png''"]
      d n e demo_first_image demo_second_image_name
    by blast
qed

section \<open>Rules without \<open>xpath\<close> or \<open>attribute\<close>\<close>


lemma extract_fields_skips:
  "\<forall>fc. (f, fc) \<in> set cfs \<longrightarrow> rule_xpath fc = None \<or> rule_attribute fc = None
   \<Longrightarrow> map_of (extract_fields w html base_url cfs acc) f = map_of acc f"
proof (induction cfs arbitrary: acc)
  case Nil
  then show ?case by simp
next
  case (Cons c cfs)
  obtain n fc where c: "c = (n, fc)" by (cases c)
  have rest: "\<forall>fc. (f, fc) \<in> set cfs \<longrightarrow> rule_xpath fc = None \<or> rule_attribute fc = None"
    using Cons.prems by simp
  show ?case
  proof (cases "n = f")
    case True
    then have "rule_xpath fc = None \<or> rule_attribute fc = None"
      using Cons.prems c by simp
    then show ?thesis using c Cons.IH[OF rest] by (auto split: option.splits)
  next
    case False
    then show ?thesis
      using c Cons.IH[OF rest] by (auto split: option.splits simp: update_conv')
  qed
qed

lemma front_matter_keys:
  "fst ` set (front_matter_of (final_fields w d t)) \<subseteq> {''date'', ''slug''} \<union> fst ` set d"
proof -
  have "fst ` set (front_matter_of (final_fields w d t)) \<subseteq> fst ` set (final_fields w d t)"
    by (auto simp: front_matter_of_def)
  also have "\<dots> \<subseteq> {''date'', ''slug''} \<union> fst ` set d"
    by (auto simp: final_fields_def with_date_def dom_update split: if_splits)
  finally show ?thesis .
qed



end
